theory Spec2Isabelle
  imports Complex_Main
begin

section \<open>The PPO agent of \<^verbatim>\<open>model/ppo/ppo.py\<close>\<close>

text \<open>
  The embedding follows \<^verbatim>\<open>class PPO\<close>. Vectors and tensors are lists (a batch is a
  list of rows). Arithmetic on \<^verbatim>\<open>float64\<close> is modelled by exact arithmetic on
  \<^typ>\<open>real\<close>: rounding and overflow are outside the model. The one place where the
  program leaves the finite numbers by itself, the division by the standard deviation in
  \<^verbatim>\<open>train\<close>, is modelled with the IEEE special values written out (type \<open>npfloat\<close>).
\<close>

subsection \<open>Advantage estimation: \<^verbatim>\<open>PPO.get_gaes\<close>\<close>

text \<open>
  \<^verbatim>\<open>
  deltas = [r_t + self.gamma * v_next - v
            for r_t, v_next, v in zip(rewards, next_v_preds, v_preds)]
  gaes = copy.deepcopy(deltas)
  for t in reversed(range(len(gaes) - 1)):
      gaes[t] = gaes[t] + self.lam * self.gamma * gaes[t + 1]
  return gaes
  \<close>
  The function uses \<open>+\<close>, \<open>-\<close> and \<open>*\<close> only, in the order written, so it is
  embedded over any type that has them: no law of arithmetic enters its definition.
  \<^verbatim>\<open>zip\<close> stops at the shortest list; \<^verbatim>\<open>range(len(gaes) - 1)\<close> is empty for an
  empty list, as \<open>[0..<0 - 1]\<close> is. Every index the loop reads or writes is in range.
\<close>

definition get_deltas ::
  "'a::{plus,minus,times} \<Rightarrow> 'a list \<Rightarrow> 'a list \<Rightarrow> 'a list \<Rightarrow> 'a list" where
  "get_deltas gam rewards v_preds next_v_preds =
     map (\<lambda>(r_t, v_next, v). r_t + gam * v_next - v) (zip rewards (zip next_v_preds v_preds))"

definition gae_update :: "'a::{plus,minus,times} \<Rightarrow> 'a \<Rightarrow> nat \<Rightarrow> 'a list \<Rightarrow> 'a list" where
  "gae_update gam la t gaes = gaes[t := gaes ! t + la * gam * gaes ! (t + 1)]"

definition get_gaes ::
  "'a::{plus,minus,times} \<Rightarrow> 'a \<Rightarrow> 'a list \<Rightarrow> 'a list \<Rightarrow> 'a list \<Rightarrow> 'a list" where
  "get_gaes gam la rewards v_preds next_v_preds =
     (let deltas = get_deltas gam rewards v_preds next_v_preds;
          gaes = deltas
      in fold (gae_update gam la) (rev [0..<length gaes - 1]) gaes)"

subsection \<open>Numbers outside the finite range\<close>

text \<open>
  A \<^verbatim>\<open>float64\<close> is a finite number, an infinity or NaN. The operations below are
  the IEEE ones on these values, with exact arithmetic on the finite part (so no
  overflow and no signed zero: a zero divisor counts as \<open>+0\<close>).
\<close>

datatype npfloat = Fin real | PInf | NInf | NaN

fun fl_neg :: "npfloat \<Rightarrow> npfloat" where
  "fl_neg (Fin x) = Fin (- x)"
| "fl_neg PInf = NInf"
| "fl_neg NInf = PInf"
| "fl_neg NaN = NaN"

fun fl_add :: "npfloat \<Rightarrow> npfloat \<Rightarrow> npfloat" where
  "fl_add NaN y = NaN"
| "fl_add x NaN = NaN"
| "fl_add (Fin x) (Fin y) = Fin (x + y)"
| "fl_add PInf NInf = NaN"
| "fl_add NInf PInf = NaN"
| "fl_add PInf y = PInf"
| "fl_add NInf y = NInf"
| "fl_add (Fin x) y = y"

definition fl_sub :: "npfloat \<Rightarrow> npfloat \<Rightarrow> npfloat" where
  "fl_sub x y = fl_add x (fl_neg y)"

definition signed_inf :: "real \<Rightarrow> npfloat" where
  "signed_inf x = (if 0 < x then PInf else if x < 0 then NInf else NaN)"

fun fl_mul :: "npfloat \<Rightarrow> npfloat \<Rightarrow> npfloat" where
  "fl_mul NaN y = NaN"
| "fl_mul x NaN = NaN"
| "fl_mul (Fin x) (Fin y) = Fin (x * y)"
| "fl_mul (Fin x) PInf = signed_inf x"
| "fl_mul (Fin x) NInf = signed_inf (- x)"
| "fl_mul PInf (Fin y) = signed_inf y"
| "fl_mul NInf (Fin y) = signed_inf (- y)"
| "fl_mul PInf PInf = PInf"
| "fl_mul NInf NInf = PInf"
| "fl_mul PInf NInf = NInf"
| "fl_mul NInf PInf = NInf"

fun fl_div :: "npfloat \<Rightarrow> npfloat \<Rightarrow> npfloat" where
  "fl_div NaN y = NaN"
| "fl_div x NaN = NaN"
| "fl_div (Fin x) (Fin y) = (if y = 0 then signed_inf x else Fin (x / y))"
| "fl_div (Fin x) y = Fin 0"
| "fl_div PInf (Fin y) = (if 0 \<le> y then PInf else NInf)"
| "fl_div NInf (Fin y) = (if 0 \<le> y then NInf else PInf)"
| "fl_div x y = NaN"

text \<open>\<^verbatim>\<open>tf.minimum\<close>: a NaN argument gives NaN.\<close>

fun fl_min :: "npfloat \<Rightarrow> npfloat \<Rightarrow> npfloat" where
  "fl_min NaN y = NaN"
| "fl_min x NaN = NaN"
| "fl_min (Fin x) (Fin y) = Fin (min x y)"
| "fl_min NInf y = NInf"
| "fl_min x NInf = NInf"
| "fl_min PInf y = y"
| "fl_min x PInf = x"

text \<open>
  \<^verbatim>\<open>tf.reduce_mean\<close> and \<^verbatim>\<open>ndarray.mean\<close> over all elements: the sum divided by the
  number of elements, NaN for an empty tensor.
\<close>

definition fl_reduce_mean :: "npfloat list \<Rightarrow> npfloat" where
  "fl_reduce_mean xs = fl_div (foldr fl_add xs (Fin 0)) (Fin (real (length xs)))"

definition mean_of :: "real list \<Rightarrow> real" where
  "mean_of xs = sum_list xs / real (length xs)"

definition np_mean :: "real list \<Rightarrow> npfloat" where
  "np_mean xs = (if xs = [] then NaN else Fin (mean_of xs))"

text \<open>
  \<^verbatim>\<open>ndarray.std()\<close> with its default \<^verbatim>\<open>ddof=0\<close>:
  \<^verbatim>\<open>sqrt(mean(abs(x - x.mean())**2))\<close>.
\<close>

definition variance_of :: "real list \<Rightarrow> real" where
  "variance_of xs = mean_of (map (\<lambda>x. \<bar>x - mean_of xs\<bar> ^ 2) xs)"

definition np_std :: "real list \<Rightarrow> npfloat" where
  "np_std xs = (if xs = [] then NaN else Fin (sqrt (variance_of xs)))"

text \<open>\<^verbatim>\<open>gaes = (gaes - gaes.mean()) / gaes.std()\<close> of \<^verbatim>\<open>train\<close>.\<close>

definition normalize_gaes :: "real list \<Rightarrow> npfloat list" where
  "normalize_gaes gaes =
     map (\<lambda>g. fl_div (fl_sub (Fin g) (np_mean gaes)) (np_std gaes)) gaes"

subsection \<open>The agent and its action distribution\<close>

text \<open>
  The attributes of \<^verbatim>\<open>self\<close> that the claims read. The trainable variables (the
  weights of the network, \<^verbatim>\<open>policy_log_std\<close>, the slots of the optimizer) are a value
  of an abstract type \<open>'p\<close>, threaded through \<^verbatim>\<open>learn\<close>. The network is a black box:
  \<open>policy \<theta> s\<close> is the row \<^verbatim>\<open>(actions_mean, value_pred)\<close> it computes for one state.
  \<open>optimizer\<close> stands for \<^verbatim>\<open>tape.gradient\<close> followed by \<^verbatim>\<open>apply_gradients\<close>: one
  step on the loss as a function of the variables.
  All vectors over the action dimensions have length \<^verbatim>\<open>action_dim\<close> by
  \<^verbatim>\<open>__init__\<close>; the elementwise operations are written with \<open>zip\<close>.
\<close>

type_synonym vec = "real list"

record ('s, 'p) agent =
  policy :: "'p \<Rightarrow> 's \<Rightarrow> vec \<times> real"
  policy_log_std :: "'p \<Rightarrow> vec"
  optimizer :: "('p \<Rightarrow> npfloat) \<Rightarrow> 'p \<Rightarrow> 'p"
  action_dim :: nat
  action_bound :: vec
  action_shift :: vec
  gamma :: real
  lam :: real
  c1 :: real
  c2 :: real
  clip_ratio :: real
  batch_size :: nat
  n_updates :: nat

text \<open>\<^verbatim>\<open>get_dist\<close>: the pair (loc, scale) of \<^verbatim>\<open>tfd.Normal\<close>.\<close>

definition get_dist :: "('s, 'p) agent \<Rightarrow> 'p \<Rightarrow> vec \<Rightarrow> vec \<times> vec" where
  "get_dist A \<theta> output = (let std = map exp (policy_log_std A \<theta>) in (output, std))"

text \<open>
  The three operations of \<^verbatim>\<open>tfd.Normal\<close> the agent calls, as the library defines
  them. \<open>sample\<close> draws standard normal noise, one number per dimension, scales and
  shifts it; the noise is the argument \<open>eps\<close> (component \<open>j\<close> is \<open>eps j\<close>).
\<close>

definition normal_sample :: "vec \<times> vec \<Rightarrow> (nat \<Rightarrow> real) \<Rightarrow> vec" where
  "normal_sample distr eps =
     map (\<lambda>(j, m, s). eps j * s + m) (zip [0..<length (fst distr)] (zip (fst distr) (snd distr)))"

definition normal_log_prob :: "vec \<times> vec \<Rightarrow> vec \<Rightarrow> vec" where
  "normal_log_prob distr x =
     map (\<lambda>(x, m, s). - (1/2) * (x / s - m / s) ^ 2 - (1/2 * ln (2 * pi) + ln s))
       (zip x (zip (fst distr) (snd distr)))"

definition normal_entropy :: "vec \<times> vec \<Rightarrow> vec" where
  "normal_entropy distr =
     map (\<lambda>(m, s). 1/2 + (1/2 * ln (2 * pi) + ln s)) (zip (fst distr) (snd distr))"

text \<open>\<^verbatim>\<open>tf.clip_by_value(t, lo, hi)\<close> is \<^verbatim>\<open>minimum(maximum(t, lo), hi)\<close>.\<close>

definition clip_by_value :: "real \<Rightarrow> real \<Rightarrow> real \<Rightarrow> real" where
  "clip_by_value t lo hi = min (max t lo) hi"

subsection \<open>\<^verbatim>\<open>PPO.act\<close> and \<^verbatim>\<open>PPO.evaluate_actions\<close>\<close>

text \<open>
  \<^verbatim>\<open>
  output, value = self.policy.predict(state)
  dist = self.get_dist(output)
  action = output if test else dist.sample()
  action = tf.clip_by_value(action, -1, 1)
  log_probs = tf.reduce_sum(dist.log_prob(action), axis=-1)
  action = action * self.action_bound + self.action_shift
  return action[0].numpy(), value[0][0], log_probs[0].numpy()
  \<close>
  \<open>clipped_action\<close> is the value of \<^verbatim>\<open>action\<close> after the clip, before the rescaling.
\<close>

definition clipped_action :: "('s, 'p) agent \<Rightarrow> 'p \<Rightarrow> 's \<Rightarrow> bool \<Rightarrow> (nat \<Rightarrow> real) \<Rightarrow> vec" where
  "clipped_action A \<theta> state test eps =
     (let (output, value) = policy A \<theta> state;
          distr = get_dist A \<theta> output;
          action = (if test then output else normal_sample distr eps)
      in map (\<lambda>a. clip_by_value a (- 1) 1) action)"

definition act ::
  "('s, 'p) agent \<Rightarrow> 'p \<Rightarrow> 's \<Rightarrow> bool \<Rightarrow> (nat \<Rightarrow> real) \<Rightarrow> vec \<times> real \<times> real" where
  "act A \<theta> state test eps =
     (let (output, value) = policy A \<theta> state;
          distr = get_dist A \<theta> output;
          action = clipped_action A \<theta> state test eps;
          log_probs = sum_list (normal_log_prob distr action);
          action = map (\<lambda>(a, b, s). a * b + s) (zip action (zip (action_bound A) (action_shift A)))
      in (action, value, log_probs))"

text \<open>
  \<^verbatim>\<open>
  output, value = self.policy(state)
  dist = self.get_dist(output)
  action = (action - self.action_shift) / self.action_bound
  log_probs = dist.log_prob(action)
  log_probs = tf.reduce_sum(log_probs, axis=-1)
  entropy = dist.entropy()
  return log_probs, entropy, value
  \<close>
  on a batch: a list of states and a list of actions. The entropy keeps its shape
  (batch, action dimension). The division is the exact one: the embedding is of an agent
  whose \<^verbatim>\<open>action_bound\<close> has no zero component.
\<close>

definition unscale_action :: "('s, 'p) agent \<Rightarrow> vec \<Rightarrow> vec" where
  "unscale_action A action =
     map (\<lambda>(a, s, b). (a - s) / b) (zip action (zip (action_shift A) (action_bound A)))"

definition evaluate_actions ::
  "('s, 'p) agent \<Rightarrow> 'p \<Rightarrow> 's list \<Rightarrow> vec list \<Rightarrow> real list \<times> vec list \<times> real list" where
  "evaluate_actions A \<theta> state action =
     (let outs = map (policy A \<theta>) state;
          distr = map (\<lambda>(output, value). get_dist A \<theta> output) outs;
          action = map (unscale_action A) action;
          log_probs = map (\<lambda>(d, a). normal_log_prob d a) (zip distr action);
          log_probs = map sum_list log_probs;
          entropy = map normal_entropy distr
      in (log_probs, entropy, map snd outs))"

subsection \<open>\<^verbatim>\<open>PPO.learn\<close>\<close>

text \<open>
  The four scalars of \<^verbatim>\<open>learn\<close>, in the order
  (\<^verbatim>\<open>total_loss\<close>, \<^verbatim>\<open>loss_clip\<close>, \<^verbatim>\<open>vf_loss\<close>, \<^verbatim>\<open>entropy\<close>). The rewards and the next
  value predictions get a trailing axis so that they line up with the column of state
  values; the advantages and the ratios are flat vectors of the batch size.
\<close>

definition learn_losses ::
  "('s, 'p) agent \<Rightarrow> 'p \<Rightarrow> 's list \<Rightarrow> vec list \<Rightarrow> real list \<Rightarrow> real list \<Rightarrow> real list
     \<Rightarrow> npfloat list \<Rightarrow> npfloat \<times> npfloat \<times> npfloat \<times> npfloat" where
  "learn_losses A \<theta> observations actions log_probs next_v_preds rewards gaes =
     (let (new_log_probs, entropy, state_values) = evaluate_actions A \<theta> observations actions;
          ratios = map (\<lambda>(n, l). exp (n - l)) (zip new_log_probs log_probs);
          clipped_ratios = map (\<lambda>r. clip_by_value r (1 - clip_ratio A) (1 + clip_ratio A)) ratios;
          loss_clip = map (\<lambda>(g, r, c). fl_min (fl_mul g (Fin r)) (fl_mul g (Fin c)))
                        (zip gaes (zip ratios clipped_ratios));
          loss_clip = fl_reduce_mean loss_clip;
          target_values = map (\<lambda>(r, nv). r + gamma A * nv) (zip rewards next_v_preds);
          vf_loss = fl_reduce_mean
                      (map (\<lambda>(v, t). Fin ((v - t) ^ 2)) (zip state_values target_values));
          entropy = fl_reduce_mean (map Fin (concat entropy));
          total_loss = fl_sub (fl_add (fl_neg loss_clip) (fl_mul (Fin (c1 A)) vf_loss))
                         (fl_mul (Fin (c2 A)) entropy)
      in (total_loss, loss_clip, vf_loss, entropy))"

text \<open>
  \<^verbatim>\<open>learn\<close>: the variables after one optimizer step on \<^verbatim>\<open>total_loss\<close>, and the four
  scalars it leaves in \<^verbatim>\<open>self.summaries\<close>.
\<close>

definition learn ::
  "('s, 'p) agent \<Rightarrow> 'p \<Rightarrow> 's list \<Rightarrow> vec list \<Rightarrow> real list \<Rightarrow> real list \<Rightarrow> real list
     \<Rightarrow> npfloat list \<Rightarrow> 'p \<times> (npfloat \<times> npfloat \<times> npfloat \<times> npfloat)" where
  "learn A \<theta> observations actions log_probs next_v_preds rewards gaes =
     (optimizer A
        (\<lambda>\<theta>'. fst (learn_losses A \<theta>' observations actions log_probs next_v_preds rewards gaes)) \<theta>,
      learn_losses A \<theta> observations actions log_probs next_v_preds rewards gaes)"





subsection \<open>The environment, the random draws and what \<^verbatim>\<open>train\<close> writes\<close>

text \<open>
  The environment is a black box with a state of its own: \<^verbatim>\<open>reset()\<close> returns the first
  observation, \<^verbatim>\<open>step(action)\<close> returns \<^verbatim>\<open>(next_state, reward, done)\<close>. The random
  number generators are oracles indexed by the number of draws made so far:
  \<open>normal_draw k j\<close> is component \<open>j\<close> of the noise of draw \<open>k\<close> (\<^verbatim>\<open>dist.sample()\<close>),
  \<open>randint_draw k j\<close> stands for entry \<open>j\<close> of \<^verbatim>\<open>np.random.randint\<close> at draw \<open>k\<close>,
  reduced below \<^verbatim>\<open>high\<close> where it is used.
\<close>

record ('e, 's) environment =
  env_reset :: "'e \<Rightarrow> 's \<times> 'e"
  env_step :: "'e \<Rightarrow> vec \<Rightarrow> ('s \<times> real \<times> bool) \<times> 'e"

record randomness =
  normal_draw :: "nat \<Rightarrow> nat \<Rightarrow> real"
  randint_draw :: "nat \<Rightarrow> nat \<Rightarrow> nat"

text \<open>
  The files \<^verbatim>\<open>ppo_episode{N}.h5\<close> and \<^verbatim>\<open>ppo_final_episode{N}.h5\<close>, the calls of
  \<^verbatim>\<open>save_model\<close> and \<^verbatim>\<open>tf.summary.scalar(name, value, step)\<close> in the order made, and
  the two exceptions the loop can raise.
\<close>

datatype checkpoint = Ppo_episode nat | Ppo_final_episode nat

datatype event = Scalar string npfloat nat | Save_model checkpoint

datatype error = ValueError | ZeroDivisionError

record ('e, 'p) world =
  env_st :: 'e
  variables :: 'p
  draws :: nat
  events :: "event list"

subsection \<open>The rollout of one episode\<close>

text \<open>
  \<^verbatim>\<open>
  while not done and steps < max_steps:
      action, value, log_prob = self.act(cur_state)
      next_state, reward, done, _ = self.env.step(action)
      rewards.append(reward); v_preds.append(value); obs.append(cur_state)
      actions.append(action); log_probs.append(log_prob)
      steps += 1
      cur_state = next_state
  \<close>
\<close>

record ('e, 's) rollout_state =
  r_done :: bool
  r_steps :: nat
  r_cur_state :: 's
  r_env :: 'e
  r_draws :: nat
  r_obs :: "'s list"
  r_actions :: "vec list"
  r_log_probs :: "real list"
  r_rewards :: "real list"
  r_v_preds :: "real list"

definition rollout_step ::
  "('s, 'p) agent \<Rightarrow> ('e, 's) environment \<Rightarrow> randomness \<Rightarrow> 'p
     \<Rightarrow> ('e, 's) rollout_state \<Rightarrow> ('e, 's) rollout_state" where
  "rollout_step A E R \<theta> st =
     (let (action, value, log_prob) = act A \<theta> (r_cur_state st) False (normal_draw R (r_draws st));
          ((next_state, reward, done'), e') = env_step E (r_env st) action
      in st\<lparr>r_rewards := r_rewards st @ [reward],
            r_v_preds := r_v_preds st @ [value],
            r_obs := r_obs st @ [r_cur_state st],
            r_actions := r_actions st @ [action],
            r_log_probs := r_log_probs st @ [log_prob],
            r_steps := r_steps st + 1,
            r_cur_state := next_state,
            r_done := done',
            r_env := e',
            r_draws := r_draws st + 1\<rparr>)"

function rollout ::
  "('s, 'p) agent \<Rightarrow> ('e, 's) environment \<Rightarrow> randomness \<Rightarrow> 'p \<Rightarrow> nat
     \<Rightarrow> ('e, 's) rollout_state \<Rightarrow> ('e, 's) rollout_state" where
  "rollout A E R \<theta> max_steps st =
     (if \<not> r_done st \<and> r_steps st < max_steps
      then rollout A E R \<theta> max_steps (rollout_step A E R \<theta> st)
      else st)"
  by pat_completeness auto
termination
  by (relation "measure (\<lambda>(A, E, R, \<theta>, max_steps, st). max_steps - r_steps st)")
     (auto simp: rollout_step_def Let_def split: prod.split)

declare rollout.simps [simp del]

text \<open>
  \<^verbatim>\<open>done, steps = False, 0\<close>, \<^verbatim>\<open>cur_state = self.env.reset()\<close>, the empty lists, and
  the loop.
\<close>

definition collect_episode ::
  "('s, 'p) agent \<Rightarrow> ('e, 's) environment \<Rightarrow> randomness \<Rightarrow> nat \<Rightarrow> ('e, 'p) world
     \<Rightarrow> ('e, 's) rollout_state" where
  "collect_episode A E R max_steps w =
     (let (cur_state, e) = env_reset E (env_st w)
      in rollout A E R (variables w) max_steps
           \<lparr>r_done = False, r_steps = 0, r_cur_state = cur_state, r_env = e, r_draws = draws w,
            r_obs = [], r_actions = [], r_log_probs = [], r_rewards = [], r_v_preds = []\<rparr>)"

text \<open>\<^verbatim>\<open>next_v_preds = v_preds[1:] + [0]\<close>\<close>

definition shift_v_preds :: "real list \<Rightarrow> real list" where
  "shift_v_preds v_preds = drop 1 v_preds @ [0]"

text \<open>
  After the rollout: the advantages \<^verbatim>\<open>get_gaes\<close> returns for the episode, and the
  list \<^verbatim>\<open>data = [obs, actions, log_probs, next_v_preds, rewards, gaes]\<close> with the
  advantages normalized.
\<close>

definition episode_gaes :: "('s, 'p) agent \<Rightarrow> ('e, 's) rollout_state \<Rightarrow> real list" where
  "episode_gaes A st =
     (let next_v_preds = shift_v_preds (r_v_preds st)
      in get_gaes (gamma A) (lam A) (r_rewards st) (r_v_preds st) next_v_preds)"

record 's data =
  d_obs :: "'s list"
  d_actions :: "vec list"
  d_log_probs :: "real list"
  d_next_v_preds :: "real list"
  d_rewards :: "real list"
  d_gaes :: "npfloat list"

definition episode_data :: "('s, 'p) agent \<Rightarrow> ('e, 's) rollout_state \<Rightarrow> 's data" where
  "episode_data A st =
     (let next_v_preds = shift_v_preds (r_v_preds st);
          gaes = episode_gaes A st;
          gaes = normalize_gaes gaes
      in \<lparr>d_obs = r_obs st, d_actions = r_actions st, d_log_probs = r_log_probs st,
          d_next_v_preds = next_v_preds, d_rewards = r_rewards st, d_gaes = gaes\<rparr>)"

subsection \<open>The updates of one episode\<close>

text \<open>
  \<^verbatim>\<open>
  for i in range(self.n_updates):
      sample_indices = np.random.randint(low=0, high=len(rewards), size=self.batch_size)
      sampled_data = [np.take(a=a, indices=sample_indices, axis=0) for a in data]
      self.learn(*sampled_data)
      ... four tf.summary.scalar('Loss/...', self.summaries[...], step=epoch)
      epoch += 1
  \<close>
  \<^verbatim>\<open>randint\<close> raises \<^verbatim>\<open>ValueError\<close> when \<^verbatim>\<open>high\<close> is \<open>0\<close>. Its indices are below
  \<^verbatim>\<open>high\<close>, so \<^verbatim>\<open>np.take\<close> reads in range whenever the six lists are as long as
  \<^verbatim>\<open>rewards\<close>.
\<close>

definition np_take :: "'a list \<Rightarrow> nat list \<Rightarrow> 'a list" where
  "np_take a indices = map (\<lambda>i. a ! i) indices"

definition sample_indices :: "('s, 'p) agent \<Rightarrow> randomness \<Rightarrow> nat \<Rightarrow> nat \<Rightarrow> nat list" where
  "sample_indices A R k high = map (\<lambda>j. randint_draw R k j mod high) [0..<batch_size A]"

text \<open>One pass through the body of the \<^verbatim>\<open>for\<close> loop, after \<^verbatim>\<open>randint\<close> has returned.\<close>

definition update_step ::
  "('s, 'p) agent \<Rightarrow> randomness \<Rightarrow> 's data \<Rightarrow> nat \<Rightarrow> ('e, 'p) world \<Rightarrow> ('e, 'p) world" where
  "update_step A R dat epoch w =
     (let idx = sample_indices A R (draws w) (length (d_rewards dat));
          (\<theta>', total_loss, surr_loss, vf_loss, entropy) =
             learn A (variables w) (np_take (d_obs dat) idx) (np_take (d_actions dat) idx)
               (np_take (d_log_probs dat) idx) (np_take (d_next_v_preds dat) idx)
               (np_take (d_rewards dat) idx) (np_take (d_gaes dat) idx)
      in w\<lparr>variables := \<theta>', draws := draws w + 1,
           events := events w @
             [Scalar ''Loss/total_loss'' total_loss epoch,
              Scalar ''Loss/clipped_surr'' surr_loss epoch,
              Scalar ''Loss/vf_loss'' vf_loss epoch,
              Scalar ''Loss/entropy'' entropy epoch]\<rparr>)"

fun update_loop ::
  "('s, 'p) agent \<Rightarrow> randomness \<Rightarrow> 's data \<Rightarrow> nat \<Rightarrow> nat \<Rightarrow> ('e, 'p) world
     \<Rightarrow> error + (nat \<times> ('e, 'p) world)" where
  "update_loop A R dat 0 epoch w = Inr (epoch, w)"
| "update_loop A R dat (Suc i) epoch w =
     (if length (d_rewards dat) = 0 then Inl ValueError
      else update_loop A R dat i (epoch + 1) (update_step A R dat epoch w))"

subsection \<open>\<^verbatim>\<open>PPO.train\<close>\<close>

text \<open>
  One pass through the body of \<^verbatim>\<open>while epoch < max_epochs\<close>: the rollout, the
  updates, \<^verbatim>\<open>episode += 1\<close>, the two episode metrics and the two conditional saves.
  \<^verbatim>\<open>episode % save_freq\<close> raises \<^verbatim>\<open>ZeroDivisionError\<close> for \<^verbatim>\<open>save_freq = 0\<close>.
\<close>

definition train_episode ::
  "('s, 'p) agent \<Rightarrow> ('e, 's) environment \<Rightarrow> randomness \<Rightarrow> nat \<Rightarrow> nat \<Rightarrow> nat \<Rightarrow> nat
     \<Rightarrow> ('e, 'p) world \<Rightarrow> error + (nat \<times> nat \<times> ('e, 'p) world)" where
  "train_episode A E R max_steps save_freq episode epoch w =
     (let st = collect_episode A E R max_steps w;
          dat = episode_data A st
      in case update_loop A R dat (n_updates A) epoch (w\<lparr>env_st := r_env st, draws := r_draws st\<rparr>) of
           Inl err \<Rightarrow> Inl err
         | Inr (epoch, w) \<Rightarrow>
             (let episode = episode + 1;
                  w = w\<lparr>events := events w @
                         [Scalar ''Main/episode_reward'' (Fin (sum_list (r_rewards st))) episode,
                          Scalar ''Main/episode_steps'' (Fin (real (r_steps st))) episode]\<rparr>;
                  w = (if r_steps st \<ge> max_steps
                       then w\<lparr>events := events w @ [Save_model (Ppo_episode episode)]\<rparr> else w)
              in if save_freq = 0 then Inl ZeroDivisionError
                 else Inr (episode, epoch,
                        if episode mod save_freq = 0
                        then w\<lparr>events := events w @ [Save_model (Ppo_episode episode)]\<rparr> else w)))"

text \<open>
  The outer loop need not end (\<^verbatim>\<open>n_updates = 0\<close> leaves \<^verbatim>\<open>epoch\<close> where it is), so it
  is a partial function: \<open>None\<close> is a run that never returns, \<open>Some (Inl e)\<close> a run that
  raises \<open>e\<close>.
\<close>

partial_function (option) train_loop ::
  "('s, 'p) agent \<Rightarrow> ('e, 's) environment \<Rightarrow> randomness \<Rightarrow> nat \<Rightarrow> nat \<Rightarrow> nat \<Rightarrow> nat \<Rightarrow> nat
     \<Rightarrow> ('e, 'p) world \<Rightarrow> (error + (nat \<times> nat \<times> ('e, 'p) world)) option" where
  "train_loop A E R max_epochs max_steps save_freq episode epoch w =
     (if epoch < max_epochs
      then (case train_episode A E R max_steps save_freq episode epoch w of
              Inl err \<Rightarrow> Some (Inl err)
            | Inr (episode', epoch', w') \<Rightarrow>
                train_loop A E R max_epochs max_steps save_freq episode' epoch' w')
      else Some (Inr (episode, epoch, w)))"

text \<open>
  \<^verbatim>\<open>train\<close>: \<^verbatim>\<open>episode, epoch = 0, 0\<close>, the loop, and the final
  \<^verbatim>\<open>self.save_model("ppo_final_episode{}.h5".format(episode))\<close>.
\<close>

definition train ::
  "('s, 'p) agent \<Rightarrow> ('e, 's) environment \<Rightarrow> randomness \<Rightarrow> nat \<Rightarrow> nat \<Rightarrow> nat
     \<Rightarrow> ('e, 'p) world \<Rightarrow> (error + ('e, 'p) world) option" where
  "train A E R max_epochs max_steps save_freq w =
     (case train_loop A E R max_epochs max_steps save_freq 0 0 w of
        None \<Rightarrow> None
      | Some (Inl err) \<Rightarrow> Some (Inl err)
      | Some (Inr (episode, epoch, w')) \<Rightarrow>
          Some (Inr (w'\<lparr>events := events w' @ [Save_model (Ppo_final_episode episode)]\<rparr>)))"

text \<open>
  What the claims count in the output of a run: the events of a run that returned, and
  among them the calls of \<^verbatim>\<open>save_model\<close> and the scalars named \<^verbatim>\<open>Loss/...\<close>.
\<close>

definition run_events :: "(error + ('e, 'p) world) option \<Rightarrow> event list option" where
  "run_events r = (case r of Some (Inr w) \<Rightarrow> Some (events w) | _ \<Rightarrow> None)"

fun is_save :: "event \<Rightarrow> bool" where
  "is_save (Save_model c) = True"
| "is_save (Scalar name v k) = False"

fun is_loss_metric :: "event \<Rightarrow> bool" where
  "is_loss_metric (Scalar name v k) = (take 5 name = ''Loss/'')"
| "is_loss_metric (Save_model c) = False"

definition count_saves :: "(error + ('e, 'p) world) option \<Rightarrow> nat option" where
  "count_saves r = map_option (length \<circ> filter is_save) (run_events r)"

text \<open>The five lists of a rollout have one entry per step taken.\<close>

definition lengths_agree :: "('e, 's) rollout_state \<Rightarrow> bool" where
  "lengths_agree st \<longleftrightarrow>
     length (r_obs st) = r_steps st \<and> length (r_actions st) = r_steps st
   \<and> length (r_log_probs st) = r_steps st \<and> length (r_rewards st) = r_steps st
   \<and> length (r_v_preds st) = r_steps st"

subsection \<open>A small agent and a fixed-reward environment\<close>

text \<open>
  Concrete inputs for the worked examples: an agent with two action dimensions and the
  default hyperparameters of \<^verbatim>\<open>__init__\<close> (\<^verbatim>\<open>policy_log_std\<close> is the zero vector
  it starts from), whose network returns the same row for every state and whose optimizer
  leaves the variables alone; and an environment that pays the reward \<open>1\<close> at every
  step and reports \<^verbatim>\<open>done\<close> at step \<open>n\<close> of an episode.
\<close>

definition example_agent :: "(nat, unit) agent" where
  "example_agent =
     \<lparr>policy = (\<lambda>\<theta> s. ([1/2, - 1/2], 0)), policy_log_std = (\<lambda>\<theta>. [0, 0]),
      optimizer = (\<lambda>loss \<theta>. \<theta>), action_dim = 2, action_bound = [2, 1], action_shift = [1, 0],
      gamma = 19/20, lam = 1, c1 = 1, c2 = 1/100, clip_ratio = 1/5,
      batch_size = 64, n_updates = 4\<rparr>"

definition fixed_reward_env :: "nat \<Rightarrow> (nat, nat) environment" where
  "fixed_reward_env n =
     \<lparr>env_reset = (\<lambda>e. (0, 0)), env_step = (\<lambda>e a. ((e + 1, 1, n \<le> e + 1), e + 1))\<rparr>"

definition example_randomness :: randomness where
  "example_randomness = \<lparr>normal_draw = (\<lambda>k j. 3), randint_draw = (\<lambda>k j. j)\<rparr>"

definition example_world :: "(nat, unit) world" where
  "example_world = \<lparr>env_st = 0, variables = (), draws = 0, events = []\<rparr>"

text \<open>
  The rollout states in which the example agent ends an episode of the environment that
  is done at step \<open>2\<close>, and of the one that is done at step \<open>1\<close>.
\<close>

definition example_rollout :: "(nat, nat) rollout_state" where
  "example_rollout =
     \<lparr>r_done = True, r_steps = 2, r_cur_state = 2, r_env = 2, r_draws = 2,
      r_obs = [0, 1], r_actions = [[3, 1], [3, 1]],
      r_log_probs = [- (5 / 4) - ln (2 * pi), - (5 / 4) - ln (2 * pi)],
      r_rewards = [1, 1], r_v_preds = [0, 0]\<rparr>"


section \<open>Properties\<close>

subsection \<open>The backward recursion of \<open>get_gaes\<close>\<close>

lemma length_get_deltas:
  "length (get_deltas gam rs vs nvs) = min (length rs) (min (length nvs) (length vs))"
  by (simp add: get_deltas_def)

lemma nth_get_deltas:
  assumes "t < length rs" "t < length vs" "t < length nvs"
  shows "get_deltas gam rs vs nvs ! t = rs ! t + gam * nvs ! t - vs ! t"
  using assms by (simp add: get_deltas_def)

lemma gae_sweep:
  assumes "n < length g"
  shows "length (fold (gae_update gam la) (rev [0..<n]) g) = length g
       \<and> (\<forall>t. n \<le> t \<longrightarrow> fold (gae_update gam la) (rev [0..<n]) g ! t = g ! t)
       \<and> (\<forall>t<n. fold (gae_update gam la) (rev [0..<n]) g ! t
                   = g ! t + la * gam * fold (gae_update gam la) (rev [0..<n]) g ! (t + 1))"
  using assms
proof (induction n arbitrary: g)
  case 0
  then show ?case by simp
next
  case (Suc n)
  let ?g' = "gae_update gam la n g"
  let ?h = "fold (gae_update gam la) (rev [0..<n]) ?g'"
  have len': "length ?g' = length g" by (simp add: gae_update_def)
  have n_lt: "n < length ?g'" using Suc.prems len' by simp
  note ih = Suc.IH [OF n_lt]
  have unfold_sweep: "fold (gae_update gam la) (rev [0..<Suc n]) g = ?h" by simp
  have len: "length ?h = length g" using ih len' by simp
  have keep: "?h ! t = ?g' ! t" if "n \<le> t" for t using ih that by blast
  have at_n: "?g' ! n = g ! n + la * gam * g ! (n + 1)"
    using Suc.prems by (simp add: gae_update_def)
  have other: "?g' ! t = g ! t" if "t \<noteq> n" for t
    using that by (simp add: gae_update_def)
  have above: "?h ! t = g ! t" if "Suc n \<le> t" for t
    using keep [of t] other [of t] that by simp
  have below: "?h ! t = g ! t + la * gam * ?h ! (t + 1)" if "t < Suc n" for t
  proof (cases "t = n")
    case True
    have "?h ! n = ?g' ! n" using keep [of n] by simp
    moreover have "?h ! (n + 1) = g ! (n + 1)" using above [of "n + 1"] by simp
    ultimately show ?thesis using at_n True by simp
  next
    case False
    then have "t < n" using that by simp
    then have "?h ! t = ?g' ! t + la * gam * ?h ! (t + 1)" using ih by blast
    then show ?thesis using other [OF False] by simp
  qed
  show ?case unfolding unfold_sweep using len above below by blast
qed

text \<open>
  C1. For an episode of length \<open>T \<ge> 1\<close> (all three inputs of length \<open>T\<close>), \<open>get_gaes\<close>
  returns a vector of length \<open>T\<close> whose last entry is \<open>delta[T-1]\<close> and whose entry \<open>t\<close>,
  for \<open>t < T-1\<close>, is \<open>delta[t] + lam * gamma * gae[t+1]\<close> with
  \<open>delta[t] = r[t] + gamma * nv[t] - v[t]\<close>: the backward recursion, which determines the
  vector from its last entry down to the first. With \<open>gamma = 1\<close>, \<open>lam = 1\<close>, rewards
  \<open>[1,1,1]\<close> and zero value predictions the result is \<open>[3,2,1]\<close>.
\<close>

theorem get_gaes_backward_recursion:
  assumes "1 \<le> T" "length r = T" "length v = T" "length nv = T"
  shows "length (get_gaes gam la r v nv) = T
       \<and> get_gaes gam la r v nv ! (T - 1) = r ! (T - 1) + gam * nv ! (T - 1) - v ! (T - 1)
       \<and> (\<forall>t<T - 1. get_gaes gam la r v nv ! t
             = (r ! t + gam * nv ! t - v ! t) + la * gam * get_gaes gam la r v nv ! (t + 1))
       \<and> get_gaes (1::real) 1 [1, 1, 1] [0, 0, 0] [0, 0, 0] = [3, 2, 1]"
proof -
  let ?d = "get_deltas gam r v nv"
  have lenD: "length ?d = T" using assms by (simp add: length_get_deltas)
  have gaes: "get_gaes gam la r v nv = fold (gae_update gam la) (rev [0..<T - 1]) ?d"
    using lenD by (simp add: get_gaes_def Let_def)
  have lt: "T - 1 < length ?d" using lenD assms(1) by simp
  note sw = gae_sweep [OF lt, of gam la]
  have d_at: "?d ! t = r ! t + gam * nv ! t - v ! t" if "t < T" for t
    using that assms by (simp add: nth_get_deltas)
  have c1: "length (get_gaes gam la r v nv) = T" using sw lenD gaes by simp
  have c2: "get_gaes gam la r v nv ! (T - 1) = r ! (T - 1) + gam * nv ! (T - 1) - v ! (T - 1)"
    using sw d_at [of "T - 1"] assms(1) gaes by simp
  have c3: "\<forall>t<T - 1. get_gaes gam la r v nv ! t
             = (r ! t + gam * nv ! t - v ! t) + la * gam * get_gaes gam la r v nv ! (t + 1)"
  proof (intro allI impI)
    fix t assume t: "t < T - 1"
    then have "t < T" by simp
    then show "get_gaes gam la r v nv ! t
             = (r ! t + gam * nv ! t - v ! t) + la * gam * get_gaes gam la r v nv ! (t + 1)"
      using sw t d_at [of t] gaes by simp
  qed
  have c4: "get_gaes (1::real) 1 [1, 1, 1] [0, 0, 0] [0, 0, 0] = [3, 2, 1]"
    by (simp add: get_gaes_def get_deltas_def gae_update_def upt_rec)
  show ?thesis using c1 c2 c3 c4 by blast
qed

theorem get_gaes_backward_recursion_witness:
  "(1::nat) \<le> 2 \<and> length [1, 2 :: real] = 2
   \<and> length (get_gaes (1/2) 1 [1, 2 :: real] [0, 4] [4, 0]) = 2
   \<and> get_gaes (1/2) 1 [1, 2 :: real] [0, 4] [4, 0] ! (2 - 1) = [1, 2] ! (2 - 1) + 1/2 * [4, 0] ! (2 - 1) - [0, 4] ! (2 - 1)
   \<and> get_gaes (1/2) 1 [1, 2 :: real] [0, 4] [4, 0] = [2, -2]"
proof -
  have h: "(1::nat) \<le> 2" "length [1, 2 :: real] = 2" "length [0, 4 :: real] = 2" "length [4, 0 :: real] = 2"
    by simp_all
  have e: "get_gaes (1/2) 1 [1, 2 :: real] [0, 4] [4, 0] = [2, -2]"
    by (simp add: get_gaes_def get_deltas_def gae_update_def upt_rec)
  show ?thesis
    using get_gaes_backward_recursion [OF h, of "1/2" 1] e by simp
qed

subsection \<open>Action selection and its replay\<close>

lemma clip_unit: "- 1 \<le> clip_by_value a (- 1) 1 \<and> clip_by_value a (- 1) 1 \<le> 1"
  by (simp add: clip_by_value_def min_def max_def)

lemma rescale_within:
  fixes a b s :: real
  assumes "- 1 \<le> a" "a \<le> 1" "0 \<le> b"
  shows "s - b \<le> a * b + s \<and> a * b + s \<le> s + b"
proof -
  have "a * b \<le> 1 * b" using assms by (intro mult_right_mono) simp_all
  moreover have "(- 1) * b \<le> a * b" using assms by (intro mult_right_mono) simp_all
  ultimately show ?thesis by simp
qed

lemma clipped_action_range:
  "c \<in> set (clipped_action A \<theta> state test eps) \<Longrightarrow> - 1 \<le> c \<and> c \<le> 1"
  using clip_unit by (auto simp: clipped_action_def Let_def split: prod.splits)

lemma fst_act:
  "fst (act A \<theta> state test eps) =
     map (\<lambda>(a, b, s). a * b + s)
       (zip (clipped_action A \<theta> state test eps) (zip (action_bound A) (action_shift A)))"
  by (simp add: act_def Let_def split: prod.splits)





lemma example_fields:
  "action_bound example_agent = [2, 1]" "action_shift example_agent = [1, 0]"
  by (simp_all add: example_agent_def)

lemma example_act:
  "act example_agent () 0 False (\<lambda>j. 3) = ([3, 1], 0, - (5 / 4) - ln (2 * pi))"
  by (simp add: act_def clipped_action_def get_dist_def normal_sample_def normal_log_prob_def
      clip_by_value_def example_agent_def upt_rec power2_eq_square)

text \<open>
  C4. Whatever the state, the noise drawn and the mode, every component of the action that
  \<open>act\<close> returns lies between \<open>action_shift - action_bound\<close> and
  \<open>action_shift + action_bound\<close>, provided no component of \<open>action_bound\<close> is negative:
  the normalized action is clipped to \<open>[-1, 1]\<close> before it is rescaled.
\<close>

theorem act_within_action_range:
  assumes "\<forall>b \<in> set (action_bound A). 0 \<le> b"
  shows "\<forall>i < length (fst (act A \<theta> state test eps)).
           action_shift A ! i - action_bound A ! i \<le> fst (act A \<theta> state test eps) ! i
         \<and> fst (act A \<theta> state test eps) ! i \<le> action_shift A ! i + action_bound A ! i"
proof (intro allI impI)
  fix i assume i: "i < length (fst (act A \<theta> state test eps))"
  let ?c = "clipped_action A \<theta> state test eps"
  from i have ic: "i < length ?c" and ib: "i < length (action_bound A)"
    and ish: "i < length (action_shift A)" by (simp_all add: fst_act)
  have c: "- 1 \<le> ?c ! i \<and> ?c ! i \<le> 1" using clipped_action_range [of "?c ! i" A \<theta> state test eps] nth_mem [OF ic] by blast
  have b: "0 \<le> action_bound A ! i" using assms ib by simp
  have v: "fst (act A \<theta> state test eps) ! i = ?c ! i * action_bound A ! i + action_shift A ! i"
    using ic ib ish by (simp add: fst_act)
  show "action_shift A ! i - action_bound A ! i \<le> fst (act A \<theta> state test eps) ! i
         \<and> fst (act A \<theta> state test eps) ! i \<le> action_shift A ! i + action_bound A ! i"
    unfolding v using rescale_within c b by blast
qed

theorem act_within_action_range_witness:
  "0 \<le> action_bound example_agent ! 0 \<and> 0 \<le> action_bound example_agent ! 1
   \<and> fst (act example_agent () 0 False (\<lambda>j. 3)) = [3, 1]
   \<and> action_shift example_agent ! 0 - action_bound example_agent ! 0 \<le> 3
   \<and> 3 \<le> action_shift example_agent ! 0 + action_bound example_agent ! 0
   \<and> action_shift example_agent ! 1 - action_bound example_agent ! 1 \<le> 1
   \<and> 1 \<le> action_shift example_agent ! 1 + action_bound example_agent ! 1"
proof -
  have h: "\<forall>b \<in> set (action_bound example_agent). 0 \<le> b" by (simp add: example_agent_def)
  have "action_shift example_agent ! i - action_bound example_agent ! i \<le> [3, 1] ! i
      \<and> [3, 1] ! i \<le> action_shift example_agent ! i + action_bound example_agent ! i"
    if "i < 2" for i
    using that act_within_action_range [OF h, of "()" 0 False "\<lambda>j. 3"]
    by (simp add: example_act)
  from this [of 0] this [of 1] show ?thesis
    by (simp add: example_act example_fields)
qed

text \<open>
  C8. With \<open>test = True\<close> the result of \<open>act\<close> does not depend on the random draw: for the
  same state and the same variables, two calls return the same action (and the same value
  and log-probability), since the mean of the network is taken instead of a sample.
\<close>

theorem act_deterministic_mode:
  "act A \<theta> state True eps = act A \<theta> state True eps'"
  by (simp add: act_def clipped_action_def Let_def split: prod.splits)

theorem act_deterministic_mode_witness:
  "act example_agent () 0 True (\<lambda>j. 3) = act example_agent () 0 True (\<lambda>j. 0)
   \<and> fst (act example_agent () 0 True (\<lambda>j. 0)) = [2, - 1/2]"
  using act_deterministic_mode [of example_agent "()" 0 "\<lambda>j. 3" "\<lambda>j. 0"]
  by (simp add: act_def clipped_action_def get_dist_def clip_by_value_def example_agent_def)



subsection \<open>Normalization of the advantages\<close>
















subsection \<open>The objective of \<open>learn\<close>\<close>











subsection \<open>The entropy bonus\<close>










subsection \<open>The rollout and the lists of an episode\<close>

lemma r_steps_rollout_step: "r_steps (rollout_step A E R \<theta> st) = r_steps st + 1"
  by (simp add: rollout_step_def Let_def split: prod.split)

lemma lengths_agree_step: "lengths_agree st \<Longrightarrow> lengths_agree (rollout_step A E R \<theta> st)"
  by (simp add: lengths_agree_def rollout_step_def Let_def split: prod.split)

lemma rollout_lengths:
  "lengths_agree st \<Longrightarrow> lengths_agree (rollout A E R \<theta> max_steps st)"
proof (induction A E R \<theta> max_steps st rule: rollout.induct)
  case (1 A E R \<theta> max_steps st)
  show ?case
  proof (cases "\<not> r_done st \<and> r_steps st < max_steps")
    case True
    have "lengths_agree (rollout_step A E R \<theta> st)" using "1.prems" by (rule lengths_agree_step)
    then have "lengths_agree (rollout A E R \<theta> max_steps (rollout_step A E R \<theta> st))"
      using "1.IH" [OF True] by simp
    then show ?thesis using True by (subst rollout.simps) simp
  next
    case False
    then show ?thesis using "1.prems" by (subst rollout.simps) auto
  qed
qed

lemma rollout_steps_bounds:
  "r_steps st \<le> r_steps (rollout A E R \<theta> max_steps st)
   \<and> (r_steps st \<le> max_steps \<longrightarrow> r_steps (rollout A E R \<theta> max_steps st) \<le> max_steps)
   \<and> (\<not> r_done st \<and> r_steps st < max_steps
        \<longrightarrow> r_steps st < r_steps (rollout A E R \<theta> max_steps st))"
proof (induction A E R \<theta> max_steps st rule: rollout.induct)
  case (1 A E R \<theta> max_steps st)
  show ?case
  proof (cases "\<not> r_done st \<and> r_steps st < max_steps")
    case True
    then show ?thesis
      using 1 [OF True] by (subst (1 2 3) rollout.simps) (simp add: r_steps_rollout_step)
  next
    case False
    then show ?thesis by (subst (1 2) rollout.simps) auto
  qed
qed

lemma collect_episode_lengths: "lengths_agree (collect_episode A E R max_steps w)"
proof -
  obtain s e where r: "env_reset E (env_st w) = (s, e)" by (cases "env_reset E (env_st w)")
  show ?thesis
    unfolding collect_episode_def r by (simp, rule rollout_lengths) (simp add: lengths_agree_def)
qed

lemma collect_episode_steps:
  "r_steps (collect_episode A E R max_steps w) \<le> max_steps"
  "1 \<le> max_steps \<Longrightarrow> 1 \<le> r_steps (collect_episode A E R max_steps w)"
proof -
  obtain s e where r: "env_reset E (env_st w) = (s, e)" by (cases "env_reset E (env_st w)")
  let ?st0 = "\<lparr>r_done = False, r_steps = 0, r_cur_state = s, r_env = e, r_draws = draws w,
            r_obs = [], r_actions = [], r_log_probs = [], r_rewards = [], r_v_preds = []\<rparr>"
  have c: "collect_episode A E R max_steps w = rollout A E R (variables w) max_steps ?st0"
    by (simp add: collect_episode_def r)
  note b = rollout_steps_bounds [of ?st0 A E R "variables w" max_steps]
  show "r_steps (collect_episode A E R max_steps w) \<le> max_steps" using b c by simp
  show "1 \<le> r_steps (collect_episode A E R max_steps w)" if "1 \<le> max_steps"
    using b c that by simp
qed

lemma length_shift_v_preds: "v \<noteq> [] \<Longrightarrow> length (shift_v_preds v) = length v"
  by (cases v) (simp_all add: shift_v_preds_def)

lemma length_episode_gaes:
  assumes "lengths_agree st" "1 \<le> r_steps st"
  shows "length (episode_gaes A st) = r_steps st"
proof -
  have "r_v_preds st \<noteq> []" using assms by (auto simp: lengths_agree_def)
  then have "length (shift_v_preds (r_v_preds st)) = r_steps st"
    using assms by (simp add: length_shift_v_preds lengths_agree_def)
  moreover have "length (r_rewards st) = r_steps st" "length (r_v_preds st) = r_steps st"
    using assms by (simp_all add: lengths_agree_def)
  ultimately have "length (get_deltas (gamma A) (r_rewards st) (r_v_preds st)
                     (shift_v_preds (r_v_preds st))) = r_steps st"
    by (simp add: length_get_deltas)
  then show ?thesis
    using gae_sweep [of "r_steps st - 1" "get_deltas (gamma A) (r_rewards st) (r_v_preds st)
                     (shift_v_preds (r_v_preds st))" "gamma A" "lam A"] assms(2)
    by (simp add: episode_gaes_def get_gaes_def Let_def)
qed

lemma example_collect_zero:
  "collect_episode example_agent (fixed_reward_env 2) example_randomness 0 example_world
     = \<lparr>r_done = False, r_steps = 0, r_cur_state = 0, r_env = 0, r_draws = 0,
        r_obs = [], r_actions = [], r_log_probs = [], r_rewards = [], r_v_preds = []\<rparr>"
  by (simp add: collect_episode_def fixed_reward_env_def example_world_def rollout.simps)

lemma example_act_any: "act example_agent () s False (\<lambda>j. 3) = ([3, 1], 0, - (5 / 4) - ln (2 * pi))"
  by (simp add: act_def clipped_action_def get_dist_def normal_sample_def normal_log_prob_def
      clip_by_value_def example_agent_def upt_rec power2_eq_square)


lemma example_collect_two:
  "collect_episode example_agent (fixed_reward_env 2) example_randomness 5 example_world
     = example_rollout"
  by (simp add: collect_episode_def fixed_reward_env_def example_world_def rollout.simps
      rollout_step_def example_randomness_def example_act_any example_rollout_def)

lemma example_collect_five:
  "r_steps (collect_episode example_agent (fixed_reward_env 5) example_randomness 5 example_world) = 5
   \<and> r_done (collect_episode example_agent (fixed_reward_env 5) example_randomness 5 example_world)"
  by (simp add: collect_episode_def fixed_reward_env_def example_world_def rollout.simps
      rollout_step_def example_randomness_def example_act_any)

text \<open>
  C9, as the code has it. In every episode in which at least one step is taken, which is
  every episode when \<open>max_steps \<ge> 1\<close>, the lists \<open>obs\<close>, \<open>actions\<close>, \<open>log_probs\<close>, \<open>v_preds\<close>
  and \<open>rewards\<close>, the list \<open>next_v_preds\<close> (\<open>v_preds\<close> shifted left by one with a \<open>0\<close>
  appended), the advantages that \<open>get_gaes\<close> returns and their normalized form all have the
  same length, the number of steps taken, which is between \<open>1\<close> and \<open>max_steps\<close>.
\<close>

theorem episode_arrays_same_length:
  assumes "1 \<le> max_steps"
  shows "length (r_obs (collect_episode A E R max_steps w)) = r_steps (collect_episode A E R max_steps w)
       \<and> length (r_actions (collect_episode A E R max_steps w)) = r_steps (collect_episode A E R max_steps w)
       \<and> length (r_log_probs (collect_episode A E R max_steps w)) = r_steps (collect_episode A E R max_steps w)
       \<and> length (r_v_preds (collect_episode A E R max_steps w)) = r_steps (collect_episode A E R max_steps w)
       \<and> length (r_rewards (collect_episode A E R max_steps w)) = r_steps (collect_episode A E R max_steps w)
       \<and> d_next_v_preds (episode_data A (collect_episode A E R max_steps w))
           = shift_v_preds (r_v_preds (collect_episode A E R max_steps w))
       \<and> length (d_next_v_preds (episode_data A (collect_episode A E R max_steps w)))
           = r_steps (collect_episode A E R max_steps w)
       \<and> length (episode_gaes A (collect_episode A E R max_steps w))
           = r_steps (collect_episode A E R max_steps w)
       \<and> length (d_gaes (episode_data A (collect_episode A E R max_steps w)))
           = r_steps (collect_episode A E R max_steps w)
       \<and> 1 \<le> r_steps (collect_episode A E R max_steps w)
       \<and> r_steps (collect_episode A E R max_steps w) \<le> max_steps"
proof -
  let ?st = "collect_episode A E R max_steps w"
  have la: "lengths_agree ?st" by (rule collect_episode_lengths)
  have s1: "1 \<le> r_steps ?st" using assms by (rule collect_episode_steps(2))
  have s2: "r_steps ?st \<le> max_steps" by (rule collect_episode_steps(1))
  have g: "length (episode_gaes A ?st) = r_steps ?st" using la s1 by (rule length_episode_gaes)
  have v: "r_v_preds ?st \<noteq> []" using la s1 by (auto simp: lengths_agree_def)
  have nv: "length (shift_v_preds (r_v_preds ?st)) = r_steps ?st"
    using la length_shift_v_preds [OF v] by (simp add: lengths_agree_def)
  have dn: "d_next_v_preds (episode_data A ?st) = shift_v_preds (r_v_preds ?st)"
    by (simp add: episode_data_def)
  have dg: "length (d_gaes (episode_data A ?st)) = r_steps ?st"
    using g by (simp add: episode_data_def normalize_gaes_def Let_def)
  show ?thesis using la s1 s2 g nv dn dg by (simp add: lengths_agree_def)
qed

theorem episode_arrays_same_length_witness:
  "(1::nat) \<le> 5
   \<and> collect_episode example_agent (fixed_reward_env 2) example_randomness 5 example_world
       = example_rollout
   \<and> length (r_obs example_rollout) = 2 \<and> length (r_rewards example_rollout) = 2
   \<and> length (d_next_v_preds (episode_data example_agent example_rollout)) = 2
   \<and> length (episode_gaes example_agent example_rollout) = 2
   \<and> r_steps example_rollout = 2"
proof -
  have h: "(1::nat) \<le> 5" by simp
  have s: "r_steps example_rollout = 2" by (simp add: example_rollout_def)
  show ?thesis
    using episode_arrays_same_length [OF h, of example_agent "fixed_reward_env 2"
        example_randomness example_world]
    unfolding example_collect_two by (auto simp: s)
qed

text \<open>
  C9 as stated fails for an episode without a step (\<open>max_steps = 0\<close>): \<open>rewards\<close> is empty
  and \<open>next_v_preds\<close> is \<open>[0]\<close>, of length \<open>1\<close>.
\<close>

theorem no_step_episode_counterexample:
  "r_steps (collect_episode example_agent (fixed_reward_env 2) example_randomness 0 example_world) = 0
   \<and> length (d_rewards (episode_data example_agent
        (collect_episode example_agent (fixed_reward_env 2) example_randomness 0 example_world))) = 0
   \<and> length (d_next_v_preds (episode_data example_agent
        (collect_episode example_agent (fixed_reward_env 2) example_randomness 0 example_world))) = 1"
  unfolding example_collect_zero by (simp add: episode_data_def shift_v_preds_def)

subsection \<open>One epoch of \<open>train\<close>\<close>

lemma env_st_update_step: "env_st (update_step A R dat epoch w) = env_st w"
  by (simp add: update_step_def Let_def split: prod.split)

lemma events_update_step:
  "\<exists>sl vl en. events (update_step A R dat epoch w) = events w @
     [Scalar ''Loss/total_loss''
        (fst (learn_losses A (variables w)
           (np_take (d_obs dat) (sample_indices A R (draws w) (length (d_rewards dat))))
           (np_take (d_actions dat) (sample_indices A R (draws w) (length (d_rewards dat))))
           (np_take (d_log_probs dat) (sample_indices A R (draws w) (length (d_rewards dat))))
           (np_take (d_next_v_preds dat) (sample_indices A R (draws w) (length (d_rewards dat))))
           (np_take (d_rewards dat) (sample_indices A R (draws w) (length (d_rewards dat))))
           (np_take (d_gaes dat) (sample_indices A R (draws w) (length (d_rewards dat))))))
        epoch,
      Scalar ''Loss/clipped_surr'' sl epoch,
      Scalar ''Loss/vf_loss'' vl epoch,
      Scalar ''Loss/entropy'' en epoch]"
  by (simp add: update_step_def learn_def Let_def split: prod.split)

lemma update_step_counts:
  "\<exists>evs. events (update_step A R dat epoch w) = events w @ evs
        \<and> length (filter is_save evs) = 0 \<and> length (filter is_loss_metric evs) = 4"
proof -
  obtain sl vl en tl where
    "events (update_step A R dat epoch w) = events w @
       [Scalar ''Loss/total_loss'' tl epoch, Scalar ''Loss/clipped_surr'' sl epoch,
        Scalar ''Loss/vf_loss'' vl epoch, Scalar ''Loss/entropy'' en epoch]"
    using events_update_step [of A R dat epoch w] by blast
  then show ?thesis by simp
qed

lemma update_loop_result:
  assumes "d_rewards dat \<noteq> []"
  shows "\<exists>w' evs. update_loop A R dat i epoch w = Inr (epoch + i, w')
           \<and> env_st w' = env_st w
           \<and> events w' = events w @ evs
           \<and> length (filter is_save evs) = 0
           \<and> length (filter is_loss_metric evs) = 4 * i"
proof (induction i arbitrary: epoch w)
  case 0
  show ?case by simp
next
  case (Suc i)
  let ?w1 = "update_step A R dat epoch w"
  obtain evs1 where e1: "events ?w1 = events w @ evs1" "length (filter is_save evs1) = 0"
      "length (filter is_loss_metric evs1) = 4"
    using update_step_counts [of A R dat epoch w] by blast
  obtain w' evs where r: "update_loop A R dat i (epoch + 1) ?w1 = Inr (epoch + 1 + i, w')"
      "env_st w' = env_st ?w1" "events w' = events ?w1 @ evs"
      "length (filter is_save evs) = 0" "length (filter is_loss_metric evs) = 4 * i"
    using Suc.IH [of "epoch + 1" ?w1] by blast
  have "update_loop A R dat (Suc i) epoch w = Inr (epoch + Suc i, w')"
    using assms r(1) by simp
  moreover have "env_st w' = env_st w" using r(2) by (simp add: env_st_update_step)
  moreover have "events w' = events w @ (evs1 @ evs)" using r(3) e1(1) by simp
  moreover have "length (filter is_save (evs1 @ evs)) = 0" using r(4) e1(2) by simp
  moreover have "length (filter is_loss_metric (evs1 @ evs)) = 4 * Suc i"
    using r(5) e1(3) by simp
  ultimately show ?case by blast
qed

lemma train_episode_result:
  assumes "1 \<le> max_steps" "save_freq \<noteq> 0"
  shows "\<exists>w' evs. train_episode A E R max_steps save_freq episode epoch w
                    = Inr (episode + 1, epoch + n_updates A, w')
           \<and> events w' = events w @ evs
           \<and> length (filter is_save evs)
               = (if max_steps \<le> r_steps (collect_episode A E R max_steps w) then 1 else 0)
                 + (if (episode + 1) mod save_freq = 0 then 1 else 0)
           \<and> length (filter is_loss_metric evs) = 4 * n_updates A"
proof -
  let ?st = "collect_episode A E R max_steps w"
  let ?dat = "episode_data A ?st"
  let ?w0 = "w\<lparr>env_st := r_env ?st, draws := r_draws ?st\<rparr>"
  have "length (r_rewards ?st) = r_steps ?st"
    using collect_episode_lengths [of A E R max_steps w] by (simp add: lengths_agree_def)
  moreover have "1 \<le> r_steps ?st" using assms(1) by (rule collect_episode_steps(2))
  ultimately have ne: "d_rewards ?dat \<noteq> []" by (auto simp: episode_data_def)
  obtain w1 evs where u: "update_loop A R ?dat (n_updates A) epoch ?w0
        = Inr (epoch + n_updates A, w1)"
      "events w1 = events ?w0 @ evs" "length (filter is_save evs) = 0"
      "length (filter is_loss_metric evs) = 4 * n_updates A"
    using update_loop_result [OF ne, of A R "n_updates A" epoch ?w0] by blast
  let ?main = "[Scalar ''Main/episode_reward'' (Fin (sum_list (r_rewards ?st))) (episode + 1),
                Scalar ''Main/episode_steps'' (Fin (real (r_steps ?st))) (episode + 1)]"
  let ?s1 = "if max_steps \<le> r_steps ?st then [Save_model (Ppo_episode (episode + 1))] else []"
  let ?s2 = "if (episode + 1) mod save_freq = 0 then [Save_model (Ppo_episode (episode + 1))] else []"
  let ?w' = "w1\<lparr>events := events w @ (evs @ ?main @ ?s1 @ ?s2)\<rparr>"
  have "train_episode A E R max_steps save_freq episode epoch w
          = Inr (episode + 1, epoch + n_updates A, ?w')"
    using assms(2) u(1,2) by (simp add: train_episode_def Let_def)
  moreover have "events ?w' = events w @ (evs @ ?main @ ?s1 @ ?s2)" by simp
  moreover have "length (filter is_save (evs @ ?main @ ?s1 @ ?s2))
               = (if max_steps \<le> r_steps ?st then 1 else 0)
                 + (if (episode + 1) mod save_freq = 0 then 1 else 0)"
    using u(3) by simp
  moreover have "length (filter is_loss_metric (evs @ ?main @ ?s1 @ ?s2)) = 4 * n_updates A"
    using u(4) by simp
  ultimately show ?thesis by blast
qed

lemma train_one_epoch:
  assumes "1 \<le> n_updates A"
  shows "\<exists>evs. run_events (train A E R 1 5 50 w) = Some (events w @ evs)
           \<and> length (filter is_save evs)
               = (if r_steps (collect_episode A E R 5 w) < 5 then 1 else 2)
           \<and> length (filter is_loss_metric evs) = 4 * n_updates A
           \<and> last evs = Save_model (Ppo_final_episode 1)"
proof -
  obtain w' evs where t: "train_episode A E R 5 50 0 0 w = Inr (0 + 1, 0 + n_updates A, w')"
      "events w' = events w @ evs"
      "length (filter is_save evs)
         = (if 5 \<le> r_steps (collect_episode A E R 5 w) then 1 else 0)
           + (if (0 + 1) mod 50 = (0::nat) then 1 else 0)"
      "length (filter is_loss_metric evs) = 4 * n_updates A"
    using train_episode_result [of 5 50 A E R 0 0 w] by auto
  have stop: "train_loop A E R 1 5 50 1 (n_updates A) w' = Some (Inr (1, n_updates A, w'))"
    using assms by (subst train_loop.simps) simp
  have "train_loop A E R 1 5 50 0 0 w = Some (Inr (1, n_updates A, w'))"
    using t(1) stop by (subst train_loop.simps) simp
  then have "run_events (train A E R 1 5 50 w)
               = Some (events w @ (evs @ [Save_model (Ppo_final_episode 1)]))"
    using t(2) by (simp add: train_def run_events_def)
  moreover have "length (filter is_save (evs @ [Save_model (Ppo_final_episode 1)]))
               = (if r_steps (collect_episode A E R 5 w) < 5 then 1 else 2)"
    using t(3) by simp
  moreover have "length (filter is_loss_metric (evs @ [Save_model (Ppo_final_episode 1)]))
               = 4 * n_updates A"
    using t(4) by simp
  moreover have "last (evs @ [Save_model (Ppo_final_episode 1)]) = Save_model (Ppo_final_episode 1)"
    by simp
  ultimately show ?thesis by blast
qed

text \<open>
  C7, as the code has it. With \<open>max_epochs = 1\<close>, \<open>max_steps = 5\<close> and the default
  \<open>save_freq = 50\<close>, on any environment and for \<open>n_updates \<ge> 1\<close>, \<open>train\<close> returns without
  an exception after one episode. It writes \<open>4 * n_updates\<close> loss scalars, at least
  \<open>n_updates\<close>. It saves one checkpoint, the final one, when the episode ended in fewer
  than \<open>5\<close> steps, and two, the one for reaching \<open>max_steps\<close> and then the final one, when
  the episode took \<open>5\<close> steps.
\<close>

theorem train_one_epoch_saves:
  assumes "1 \<le> n_updates A"
  shows "\<exists>evs. run_events (train A E R 1 5 50 w) = Some (events w @ evs)
           \<and> length (filter is_save evs)
               = (if r_steps (collect_episode A E R 5 w) < 5 then 1 else 2)
           \<and> last evs = Save_model (Ppo_final_episode 1)
           \<and> length (filter is_loss_metric evs) = 4 * n_updates A
           \<and> n_updates A \<le> length (filter is_loss_metric evs)"
proof -
  obtain evs where "run_events (train A E R 1 5 50 w) = Some (events w @ evs)"
      "length (filter is_save evs) = (if r_steps (collect_episode A E R 5 w) < 5 then 1 else 2)"
      "length (filter is_loss_metric evs) = 4 * n_updates A"
      "last evs = Save_model (Ppo_final_episode 1)"
    using train_one_epoch [OF assms, of E R w] by blast
  then show ?thesis by (intro exI [of _ evs]) simp
qed

theorem train_one_epoch_saves_witness:
  "1 \<le> n_updates example_agent
   \<and> r_steps (collect_episode example_agent (fixed_reward_env 2) example_randomness 5 example_world) = 2
   \<and> count_saves (train example_agent (fixed_reward_env 2) example_randomness 1 5 50 example_world)
       = Some 1"
proof -
  have h: "1 \<le> n_updates example_agent" by (simp add: example_agent_def)
  have s: "r_steps (collect_episode example_agent (fixed_reward_env 2) example_randomness 5
             example_world) = 2"
    by (simp add: example_collect_two example_rollout_def)
  obtain evs where
    "run_events (train example_agent (fixed_reward_env 2) example_randomness 1 5 50 example_world)
       = Some (events example_world @ evs)"
    "length (filter is_save evs) = 1"
    using train_one_epoch_saves [OF h, of "fixed_reward_env 2" example_randomness example_world] s
    by auto
  then have "count_saves (train example_agent (fixed_reward_env 2) example_randomness 1 5 50
               example_world) = Some 1"
    by (simp add: count_saves_def example_world_def)
  then show ?thesis using h s by simp
qed

text \<open>
  C7 as stated fails on the fixed-reward environment whose episodes end at their fifth
  step: the episode is done, and \<open>train\<close> saves two checkpoints.
\<close>

theorem two_saves_counterexample:
  "r_done (collect_episode example_agent (fixed_reward_env 5) example_randomness 5 example_world)
   \<and> count_saves (train example_agent (fixed_reward_env 5) example_randomness 1 5 50 example_world)
       = Some 2"
proof -
  have h: "1 \<le> n_updates example_agent" by (simp add: example_agent_def)
  obtain evs where
    "run_events (train example_agent (fixed_reward_env 5) example_randomness 1 5 50 example_world)
       = Some (events example_world @ evs)"
    "length (filter is_save evs) = 2"
    using train_one_epoch [OF h, of "fixed_reward_env 5" example_randomness example_world]
      example_collect_five by auto
  then have "count_saves (train example_agent (fixed_reward_env 5) example_randomness 1 5 50
               example_world) = Some 2"
    by (simp add: count_saves_def example_world_def)
  then show ?thesis using example_collect_five by simp
qed

subsection \<open>Constant advantages\<close>









end
